theory Spec2Isabelle
  imports Main "HOL-Library.Word" "HOL-Library.Multiset" "HOL-Library.Sublist"
begin

unbundle bit_operations_syntax

section \<open>Machine types and Go values\<close>

type_synonym u32 = "32 word"
type_synonym i32 = "32 word"
type_synonym i64 = "64 word"
type_synonym byte = "8 word"

text \<open>
  A Go \<open>string\<close> and a \<open>[]byte\<close> are byte sequences. The HOL type \<open>string\<close> is a list
  of 8-bit characters, so a Go string is a \<open>string\<close> and \<open>len\<close> is \<open>length\<close>.
\<close>

definition byte_of_char :: "char \<Rightarrow> byte" where
  "byte_of_char c = of_char c"

definition char_of_byte :: "byte \<Rightarrow> char" where
  "char_of_byte b = char_of (unat b)"

subsection \<open>Go errors\<close>

text \<open>
  The \<open>error\<close> values that reach the code under study: the two sentinels of package
  \<open>db\<close>, an error known only by its text (\<open>errors.New\<close>, or an error of the store
  engine), and \<open>fmt.Errorf(prefix + "%w", err)\<close>, which wraps an error.
\<close>

datatype go_error =
    ErrEmptyDB
  | ErrNoTransaction
  | New string
  | Wrap string go_error

text \<open>
  The texts of the two sentinels are declared outside the files under study; they are
  parameters of \<open>Error\<close>.
\<close>

record sentinel_texts =
  ErrEmptyDB_text :: string
  ErrNoTransaction_text :: string

fun Error :: "sentinel_texts \<Rightarrow> go_error \<Rightarrow> string" where
  "Error t ErrEmptyDB = ErrEmptyDB_text t"
| "Error t ErrNoTransaction = ErrNoTransaction_text t"
| "Error t (New s) = s"
| "Error t (Wrap p e) = p @ Error t e"

text \<open>\<open>errors.Is(err, target)\<close> for a sentinel target: identity along the chain of wrapped errors.\<close>

fun errors_Is :: "go_error \<Rightarrow> go_error \<Rightarrow> bool" where
  "errors_Is (Wrap p e) target = (Wrap p e = target \<or> errors_Is e target)"
| "errors_Is e target = (e = target)"

subsection \<open>Formatting verbs\<close>

definition digit_char :: "nat \<Rightarrow> char" where
  "digit_char d = char_of (48 + d)"

text \<open>The verb \<open>%d\<close> on a non-negative integer.\<close>

fun show_nat :: "nat \<Rightarrow> string" where
  "show_nat n = (if n < 10 then [digit_char n] else show_nat (n div 10) @ [digit_char (n mod 10)])"

declare show_nat.simps [simp del]

definition upper_hex_char :: "nat \<Rightarrow> char" where
  "upper_hex_char d = (if d < 10 then char_of (48 + d) else char_of (55 + d))"

text \<open>The verb \<open>%q\<close> on a string without characters that need escaping.\<close>

definition show_quoted :: "string \<Rightarrow> string" where
  "show_quoted s = [CHR 0x22] @ s @ [CHR 0x22]"

section \<open>Package encoding/hex of the Go standard library\<close>

datatype hex_error = ErrLength | InvalidByteError byte

definition hex_DecodedLen :: "nat \<Rightarrow> nat" where
  "hex_DecodedLen x = x div 2"

text \<open>\<open>reverseHexTable\<close>: the value of a hexadecimal digit, \<open>0xff\<close> for any other byte.\<close>

definition reverseHexTable :: "char \<Rightarrow> byte" where
  "reverseHexTable c =
     (let n = of_char c :: nat in
      if 48 \<le> n \<and> n \<le> 57 then of_nat (n - 48)
      else if 97 \<le> n \<and> n \<le> 102 then of_nat (n - 87)
      else if 65 \<le> n \<and> n \<le> 70 then of_nat (n - 55)
      else 0xff)"

text \<open>
  \<open>hex.Decode(dst, src)\<close>: the bytes written to \<open>dst\<close> before the call returns, and
  the error. The loop reads \<open>src\<close> two characters at a time; a trailing single character is
  reported as an invalid byte if it is one, as \<open>ErrLength\<close> otherwise.
\<close>

fun hex_Decode :: "string \<Rightarrow> byte list \<times> hex_error option" where
  "hex_Decode (p # q # rest) =
     (let a = reverseHexTable p; b = reverseHexTable q in
      if a > 0x0f then ([], Some (InvalidByteError (byte_of_char p)))
      else if b > 0x0f then ([], Some (InvalidByteError (byte_of_char q)))
      else (case hex_Decode rest of (bs, e) \<Rightarrow> ((push_bit 4 a OR b) # bs, e)))"
| "hex_Decode [p] =
     (if reverseHexTable p > 0x0f then ([], Some (InvalidByteError (byte_of_char p)))
      else ([], Some ErrLength))"
| "hex_Decode [] = ([], None)"

text \<open>
  The text of a hex error. \<open>InvalidByteError\<close> prints the byte with the verb \<open>%#U\<close>:
  \<open>U+\<close> and four upper-case hexadecimal digits, then the character itself in quotes when it is
  printable (for a code point below 256: \<open>0x20..0x7E\<close>, and \<open>0xA1..0xFF\<close> without
  \<open>0xAD\<close>), encoded in UTF-8.
\<close>

definition utf8_latin1 :: "nat \<Rightarrow> string" where
  "utf8_latin1 n = (if n < 128 then [char_of n] else [char_of (192 + n div 64), char_of (128 + n mod 64)])"

definition is_print_latin1 :: "nat \<Rightarrow> bool" where
  "is_print_latin1 n = ((32 \<le> n \<and> n < 127) \<or> (161 \<le> n \<and> n \<le> 255 \<and> n \<noteq> 173))"

definition show_sharp_U :: "nat \<Rightarrow> string" where
  "show_sharp_U n =
     ''U+00'' @ [upper_hex_char (n div 16), upper_hex_char (n mod 16)] @
     (if is_print_latin1 n then '' '' @ [CHR 0x27] @ utf8_latin1 n @ [CHR 0x27] else [])"

fun hex_error_Error :: "hex_error \<Rightarrow> string" where
  "hex_error_Error ErrLength = ''encoding/hex: odd length hex string''"
| "hex_error_Error (InvalidByteError b) = ''encoding/hex: invalid byte: '' @ show_sharp_U (unat b)"

section \<open>Package encoding/base64 of the Go standard library\<close>

definition b64_char :: "nat \<Rightarrow> char" where
  "b64_char n =
     (if n < 26 then char_of (65 + n)
      else if n < 52 then char_of (71 + n)
      else if n < 62 then char_of (n - 4)
      else if n = 62 then CHR ''+'' else CHR ''/'')"

text \<open>\<open>base64.StdEncoding.EncodeToString\<close>: the standard alphabet, padded with \<open>=\<close>.\<close>

fun base64_EncodeToString :: "byte list \<Rightarrow> string" where
  "base64_EncodeToString (a # b # c # rest) =
     (let v = unat a * 65536 + unat b * 256 + unat c in
      [b64_char (v div 262144), b64_char (v div 4096 mod 64), b64_char (v div 64 mod 64), b64_char (v mod 64)]
      @ base64_EncodeToString rest)"
| "base64_EncodeToString [a, b] =
     (let v = unat a * 65536 + unat b * 256 in
      [b64_char (v div 262144), b64_char (v div 4096 mod 64), b64_char (v div 64 mod 64), CHR ''='']) "
| "base64_EncodeToString [a] =
     (let v = unat a * 65536 in
      [b64_char (v div 262144), b64_char (v div 4096 mod 64), CHR ''='', CHR ''=''])"
| "base64_EncodeToString [] = []"

section \<open>The ledger store (package db)\<close>

text \<open>
  \<open>xdr.LedgerCloseMeta\<close> is a type of an external package. The code reads it through
  \<open>LedgerSequence()\<close> and \<open>LedgerCloseTime()\<close> only; the rest of the value is opaque.
\<close>

record LedgerCloseMeta =
  LedgerSequence :: u32
  LedgerCloseTime :: i64
  opaque :: "byte list"

definition zero_LedgerCloseMeta :: LedgerCloseMeta where
  "zero_LedgerCloseMeta = \<lparr>LedgerSequence = 0, LedgerCloseTime = 0, opaque = []\<rparr>"

record LedgerInfo =
  Sequence :: u32
  CloseTime :: i64

record LedgerRange =
  FirstLedger :: LedgerInfo
  LastLedger :: LedgerInfo

definition zero_LedgerRange :: LedgerRange where
  "zero_LedgerRange =
     \<lparr>FirstLedger = \<lparr>Sequence = 0, CloseTime = 0\<rparr>, LastLedger = \<lparr>Sequence = 0, CloseTime = 0\<rparr>\<rparr>"

definition ledgerCloseMetaTableName :: string where
  "ledgerCloseMetaTableName = ''ledger_close_meta''"

text \<open>
  The column \<open>meta\<close> of a row holds an encoded ledger. Scanning it gives the ledger, or
  fails with the decoder's error when the stored bytes are not a ledger.
\<close>

datatype stored = Meta LedgerCloseMeta | Undecodable string

type_synonym row = "u32 \<times> stored"

text \<open>The statements the code builds with the query builder, one constructor for each.\<close>

datatype statement =
    SelectAllAsc
  | SelectRangeAsc u32 u32
  | SelectEq u32
  | SelectMin
  | SelectMinOrMaxAsc
  | DeleteLt u32
  | InsertRow u32

text \<open>
  The state behind \<open>*DB\<close>: the rows of table \<open>ledger_close_meta\<close> in storage order (the
  code itself allows for several rows of one sequence), the cache of the latest ledger, the
  error with which the engine currently refuses every statement (if any), and the statements
  issued so far.
\<close>

record DB =
  table :: "row list"
  latestLedgerSeq :: u32
  latestLedgerCloseTime :: i64
  engine_error :: "string option"
  issued :: "statement list"

fun min_sequence :: "row list \<Rightarrow> u32 option" where
  "min_sequence [] = None"
| "min_sequence (r # rs) =
     (case min_sequence rs of None \<Rightarrow> Some (fst r) | Some m \<Rightarrow> Some (min (fst r) m))"

fun max_sequence :: "row list \<Rightarrow> u32 option" where
  "max_sequence [] = None"
| "max_sequence (r # rs) =
     (case max_sequence rs of None \<Rightarrow> Some (fst r) | Some m \<Rightarrow> Some (max (fst r) m))"

text \<open>
  The rows a \<open>SELECT\<close> statement returns. \<open>MIN\<close> and \<open>MAX\<close> of an empty table are
  \<open>NULL\<close>, which no sequence equals. \<open>ORDER BY sequence asc\<close> is a sort on the key.
\<close>

fun rows_of :: "statement \<Rightarrow> row list \<Rightarrow> row list" where
  "rows_of SelectAllAsc t = sort_key fst t"
| "rows_of (SelectRangeAsc s e) t = sort_key fst (filter (\<lambda>r. s \<le> fst r \<and> fst r \<le> e) t)"
| "rows_of (SelectEq s) t = filter (\<lambda>r. fst r = s) t"
| "rows_of SelectMin t = filter (\<lambda>r. Some (fst r) = min_sequence t) t"
| "rows_of SelectMinOrMaxAsc t =
     sort_key fst (filter (\<lambda>r. Some (fst r) = min_sequence t \<or> Some (fst r) = max_sequence t) t)"
| "rows_of (DeleteLt c) t = []"
| "rows_of (InsertRow s) t = []"

text \<open>Scanning all rows of a result into a slice: the first undecodable row fails the call.\<close>

fun scan_all :: "row list \<Rightarrow> go_error + LedgerCloseMeta list" where
  "scan_all [] = Inr []"
| "scan_all ((s, Undecodable e) # rs) = Inl (New e)"
| "scan_all ((s, Meta m) # rs) = (case scan_all rs of Inl e \<Rightarrow> Inl e | Inr ms \<Rightarrow> Inr (m # ms))"

text \<open>\<open>db.Select(ctx, &results, sql)\<close>: run the statement and scan every row.\<close>

definition Select :: "statement \<Rightarrow> DB \<Rightarrow> (go_error + LedgerCloseMeta list) \<times> DB" where
  "Select q db =
     (let db' = db\<lparr>issued := issued db @ [q]\<rparr> in
      case engine_error db of
        Some e \<Rightarrow> (Inl (New e), db')
      | None \<Rightarrow> (scan_all (rows_of q (table db)), db'))"

text \<open>\<open>db.Query(ctx, sql)\<close>: run the statement and return the cursor over its rows.\<close>

definition Query :: "statement \<Rightarrow> DB \<Rightarrow> (go_error + row list) \<times> DB" where
  "Query q db =
     (let db' = db\<lparr>issued := issued db @ [q]\<rparr> in
      case engine_error db of
        Some e \<Rightarrow> (Inl (New e), db')
      | None \<Rightarrow> (Inr (rows_of q (table db)), db'))"

subsection \<open>Streaming\<close>

text \<open>
  \<open>StreamLedgerFn\<close> is \<open>func(xdr.LedgerCloseMeta) error\<close>. A Go closure may keep state
  between calls, so the sink takes and returns a state of its own.
\<close>

type_synonym 's StreamLedgerFn = "LedgerCloseMeta \<Rightarrow> 's \<Rightarrow> go_error option \<times> 's"

text \<open>
  The loop \<open>for q.Next() { q.Scan; f(closeMeta) }\<close> followed by \<open>return q.Err()\<close>. The
  result is the error returned, the sink's state, and the ledgers the sink was invoked on,
  in the order of the invocations.
\<close>

fun stream_rows :: "'s StreamLedgerFn \<Rightarrow> row list \<Rightarrow> 's \<Rightarrow> go_error option \<times> 's \<times> LedgerCloseMeta list" where
  "stream_rows f [] s = (None, s, [])"
| "stream_rows f ((k, Undecodable e) # rs) s = (Some (New e), s, [])"
| "stream_rows f ((k, Meta m) # rs) s =
     (case f m s of
        (Some e, s') \<Rightarrow> (Some e, s', [m])
      | (None, s') \<Rightarrow> (case stream_rows f rs s' of (r, s'', ms) \<Rightarrow> (r, s'', m # ms)))"

definition StreamAllLedgers ::
  "'s StreamLedgerFn \<Rightarrow> 's \<Rightarrow> DB \<Rightarrow> (go_error option \<times> 's \<times> LedgerCloseMeta list) \<times> DB" where
  "StreamAllLedgers f s db =
     (case Query SelectAllAsc db of
        (Inl err, db') \<Rightarrow> ((Some err, s, []), db')
      | (Inr q, db') \<Rightarrow> (stream_rows f q s, db'))"

definition StreamLedgerRange ::
  "u32 \<Rightarrow> u32 \<Rightarrow> 's StreamLedgerFn \<Rightarrow> 's \<Rightarrow> DB \<Rightarrow> (go_error option \<times> 's \<times> LedgerCloseMeta list) \<times> DB" where
  "StreamLedgerRange startLedger endLedger f s db =
     (case Query (SelectRangeAsc startLedger endLedger) db of
        (Inl err, db') \<Rightarrow> ((Some err, s, []), db')
      | (Inr q, db') \<Rightarrow> (stream_rows f q s, db'))"

subsection \<open>Point lookup and range\<close>

text \<open>\<open>GetLedger\<close> returns the Go triple \<open>(ledger, found, err)\<close>.\<close>

definition GetLedger :: "u32 \<Rightarrow> DB \<Rightarrow> (LedgerCloseMeta \<times> bool \<times> go_error option) \<times> DB" where
  "GetLedger sequence db =
     (case Select (SelectEq sequence) db of
        (Inl err, db') \<Rightarrow> ((zero_LedgerCloseMeta, False, Some err), db')
      | (Inr results, db') \<Rightarrow>
          (case results of
             [] \<Rightarrow> ((zero_LedgerCloseMeta, False, None), db')
           | [r] \<Rightarrow> ((r, True, None), db')
           | _ \<Rightarrow> ((zero_LedgerCloseMeta, False,
                     Some (New (''multiple lcm entries ('' @ show_nat (length results) @
                                '') for sequence '' @ show_nat (unat sequence) @
                                '' in table '' @ show_quoted ledgerCloseMetaTableName))), db')))"

definition LedgerInfo_of :: "LedgerCloseMeta \<Rightarrow> LedgerInfo" where
  "LedgerInfo_of m = \<lparr>Sequence = LedgerSequence m, CloseTime = LedgerCloseTime m\<rparr>"

text \<open>
  \<open>GetLedgerRange\<close> reads the cache first. The read lock around the two cache reads has no
  sequential effect.
\<close>

definition GetLedgerRange :: "DB \<Rightarrow> (go_error + LedgerRange) \<times> DB" where
  "GetLedgerRange db =
     (let latestLedgerSeqCache = latestLedgerSeq db;
          latestLedgerCloseTimeCache = latestLedgerCloseTime db in
      if latestLedgerSeqCache \<noteq> 0 then
        (case Select SelectMin db of
           (Inl err, db') \<Rightarrow> (Inl (Wrap ''couldn't query ledger range: '' err), db')
         | (Inr lcm', db') \<Rightarrow>
             (case lcm' of
                [] \<Rightarrow> (Inl ErrEmptyDB, db')
              | m # _ \<Rightarrow>
                  (Inr \<lparr>FirstLedger = LedgerInfo_of m,
                        LastLedger = \<lparr>Sequence = latestLedgerSeqCache,
                                      CloseTime = latestLedgerCloseTimeCache\<rparr>\<rparr>, db')))
      else
        (case Select SelectMinOrMaxAsc db of
           (Inl err, db') \<Rightarrow> (Inl (Wrap ''couldn't query ledger range: '' err), db')
         | (Inr lcms, db') \<Rightarrow>
             (case lcms of
                [] \<Rightarrow> (Inl ErrEmptyDB, db')
              | m # _ \<Rightarrow>
                  (Inr \<lparr>FirstLedger = LedgerInfo_of m,
                        LastLedger = LedgerInfo_of (last lcms)\<rparr>, db'))))"

subsection \<open>Writing\<close>

text \<open>\<open>Exec\<close> of a statement through the statement cache: the error, and the new state.\<close>

definition Exec :: "statement \<Rightarrow> (row list \<Rightarrow> row list) \<Rightarrow> DB \<Rightarrow> go_error option \<times> DB" where
  "Exec q change db =
     (let db' = db\<lparr>issued := issued db @ [q]\<rparr> in
      case engine_error db of
        Some e \<Rightarrow> (Some (New e), db')
      | None \<Rightarrow> (None, db'\<lparr>table := change (table db)\<rparr>))"

text \<open>
  \<open>trimLedgers\<close>: the comparison, the addition and the subtraction are those of
  \<open>uint32\<close>, which wrap around.
\<close>

definition trimLedgers :: "u32 \<Rightarrow> u32 \<Rightarrow> DB \<Rightarrow> go_error option \<times> DB" where
  "trimLedgers latestLedgerSeq' retentionWindow db =
     (if latestLedgerSeq' + 1 \<le> retentionWindow then (None, db)
      else
        (let cutoff = latestLedgerSeq' + 1 - retentionWindow in
         Exec (DeleteLt cutoff) (filter (\<lambda>r. \<not> fst r < cutoff)) db))"

text \<open>
  \<open>InsertLedger\<close> appends the row \<open>(ledger.LedgerSequence(), ledger)\<close>. The primary key
  of the table is declared outside the files under study; the insert is modelled without it.
\<close>

definition InsertLedger :: "LedgerCloseMeta \<Rightarrow> DB \<Rightarrow> go_error option \<times> DB" where
  "InsertLedger ledger db =
     Exec (InsertRow (LedgerSequence ledger)) (\<lambda>t. t @ [(LedgerSequence ledger, Meta ledger)]) db"

section \<open>The transaction reader\<close>

type_synonym Hash = "byte list"

text \<open>
  \<open>db.Transaction\<close>, declared outside the files under study, with the fields the handler
  reads. The field names carry the prefix \<open>tx_\<close> to keep them apart from the fields of the
  response.
\<close>

record Transaction =
  tx_Result :: "byte list"
  tx_Meta :: "byte list"
  tx_Envelope :: "byte list"
  tx_Events :: "byte list list"
  tx_FeeBump :: bool
  tx_ApplicationOrder :: i32
  tx_Successful :: bool
  tx_Ledger :: LedgerInfo

text \<open>
  Modelled from the spec: the implementation of interface \<open>db.TransactionReader\<close> is not
  among the files under study. The spec describes it as a table keyed by the transaction
  hash with a point lookup \<open>get(hash) \<rightarrow> Option<Transaction>\<close>; a hash without a row is
  reported with the sentinel \<open>db.ErrNoTransaction\<close>, and the store may fail. The state
  records the lookups made.
\<close>

record TransactionReader =
  index :: "Hash \<rightharpoonup> Transaction"
  reader_error :: "string option"
  lookups :: "Hash list"

definition reader_GetTransaction :: "Hash \<Rightarrow> TransactionReader \<Rightarrow> (go_error + Transaction) \<times> TransactionReader" where
  "reader_GetTransaction h r =
     (let r' = r\<lparr>lookups := lookups r @ [h]\<rparr> in
      case reader_error r of
        Some e \<Rightarrow> (Inl (New e), r')
      | None \<Rightarrow> (case index r h of None \<Rightarrow> (Inl ErrNoTransaction, r') | Some tx \<Rightarrow> (Inr tx, r')))"

section \<open>The method getTransaction (package methods)\<close>

definition TransactionStatusSuccess :: string where
  "TransactionStatusSuccess = ''SUCCESS''"

definition TransactionStatusNotFound :: string where
  "TransactionStatusNotFound = ''NOT_FOUND''"

definition TransactionStatusFailed :: string where
  "TransactionStatusFailed = ''FAILED''"

record GetTransactionResponse =
  Status :: string
  LatestLedger :: u32
  LatestLedgerCloseTime :: i64
  OldestLedger :: u32
  OldestLedgerCloseTime :: i64
  ApplicationOrder :: i32
  FeeBump :: bool
  EnvelopeXDR :: string
  EnvelopeJSON :: string
  ResultXDR :: string
  ResultJSON :: string
  ResultMetaXDR :: string
  ResultMetaJSON :: string
  Ledger :: u32
  LedgerCloseTime' :: i64
  DiagnosticEventsXDR :: "string list"
  DiagnosticEventsJSON :: "string list"

text \<open>\<open>GetTransactionResponse{}\<close>: every field at its zero value.\<close>

definition zero_GetTransactionResponse :: GetTransactionResponse where
  "zero_GetTransactionResponse =
     \<lparr>Status = [], LatestLedger = 0, LatestLedgerCloseTime = 0, OldestLedger = 0,
      OldestLedgerCloseTime = 0, ApplicationOrder = 0, FeeBump = False, EnvelopeXDR = [],
      EnvelopeJSON = [], ResultXDR = [], ResultJSON = [], ResultMetaXDR = [],
      ResultMetaJSON = [], Ledger = 0, LedgerCloseTime' = 0, DiagnosticEventsXDR = [],
      DiagnosticEventsJSON = []\<rparr>"

text \<open>
  Both diagnostic-events fields are tagged \<open>omitempty\<close>: the encoded response has the
  field exactly when the slice is not empty.
\<close>

definition has_diagnosticEventsXdr :: "GetTransactionResponse \<Rightarrow> bool" where
  "has_diagnosticEventsXdr r = (DiagnosticEventsXDR r \<noteq> [])"

definition has_diagnosticEventsJson :: "GetTransactionResponse \<Rightarrow> bool" where
  "has_diagnosticEventsJson r = (DiagnosticEventsJSON r \<noteq> [])"

record GetTransactionRequest =
  Hash :: string
  Format :: string

record jrpc2_Error =
  Code :: int
  Message :: string

definition InvalidParams :: int where
  "InvalidParams = - 32602"

definition InternalError :: int where
  "InternalError = - 32603"

definition FormatBase64 :: string where
  "FormatBase64 = ''base64''"

definition FormatJSON :: string where
  "FormatJSON = ''json''"

text \<open>
  The helpers of package \<open>methods\<close> and the texts of package \<open>db\<close> that the handler uses
  and that are declared outside the files under study: the text of the error of
  \<open>IsValidFormat\<close>, the two conversions to JSON (either may fail), and the texts of the
  sentinels.
\<close>

record helpers =
  invalid_format_text :: "string \<Rightarrow> string"
  transactionToJSON :: "Transaction \<Rightarrow> go_error + (string \<times> string \<times> string)"
  jsonifySlice :: "byte list list \<Rightarrow> go_error + string list"
  texts :: sentinel_texts

text \<open>
  Modelled from the spec: \<open>IsValidFormat\<close> is not among the files under study. The spec
  gives the request field as \<open>xdrFormat?: "base64" | "json"\<close>, an unknown format being an
  invalid parameter: the field may be absent (empty) or one of the two names.
\<close>

definition IsValidFormat :: "helpers \<Rightarrow> string \<Rightarrow> string option" where
  "IsValidFormat d format =
     (if format = [] \<or> format = FormatJSON \<or> format = FormatBase64 then None
      else Some (invalid_format_text d format))"

text \<open>
  Modelled from the spec: \<open>base64EncodeSlice\<close> is not among the files under study. The
  spec gives \<open>diagnosticEventsXdr\<close> as the list of the base64 strings of the events.
\<close>

definition base64EncodeSlice :: "byte list list \<Rightarrow> string list" where
  "base64EncodeSlice xs = map base64_EncodeToString xs"

text \<open>The length of \<open>xdr.Hash\<close>, an array of 32 bytes.\<close>

definition len_xdr_Hash :: nat where
  "len_xdr_Hash = 32"

text \<open>
  The first part of \<open>GetTransaction\<close>: the format, the length of the hash, the decoding
  into the zeroed array \<open>txHash\<close>.
\<close>

definition parse_request :: "helpers \<Rightarrow> GetTransactionRequest \<Rightarrow> jrpc2_Error + Hash" where
  "parse_request d request =
     (case IsValidFormat d (Format request) of
        Some err \<Rightarrow> Inl \<lparr>Code = InvalidParams, Message = err\<rparr>
      | None \<Rightarrow>
          if hex_DecodedLen (length (Hash request)) \<noteq> len_xdr_Hash then
            Inl \<lparr>Code = InvalidParams,
                 Message = ''unexpected hash length ('' @ show_nat (length (Hash request)) @ '')''\<rparr>
          else
            (case hex_Decode (Hash request) of
               (written, Some err) \<Rightarrow>
                 Inl \<lparr>Code = InvalidParams, Message = ''incorrect hash: '' @ hex_error_Error err\<rparr>
             | (written, None) \<Rightarrow> Inr (take len_xdr_Hash (written @ replicate len_xdr_Hash 0))))"

text \<open>The last two statements of \<open>GetTransaction\<close>.\<close>

definition set_status :: "Transaction \<Rightarrow> GetTransactionResponse \<Rightarrow> GetTransactionResponse" where
  "set_status tx response =
     (let response = response\<lparr>Status := TransactionStatusFailed\<rparr> in
      if tx_Successful tx then response\<lparr>Status := TransactionStatusSuccess\<rparr> else response)"

text \<open>
  The part of \<open>GetTransaction\<close> after the two reads: the response built from the range and
  from what the reader returned, with the error returned beside it.
\<close>

definition respond ::
  "helpers \<Rightarrow> GetTransactionRequest \<Rightarrow> LedgerRange \<Rightarrow> go_error + Transaction
     \<Rightarrow> GetTransactionResponse \<times> jrpc2_Error option" where
  "respond d request storeRange looked_up =
     (let response = zero_GetTransactionResponse
            \<lparr>LatestLedger := Sequence (LastLedger storeRange),
             LatestLedgerCloseTime := CloseTime (LastLedger storeRange),
             OldestLedger := Sequence (FirstLedger storeRange),
             OldestLedgerCloseTime := CloseTime (FirstLedger storeRange)\<rparr> in
      case looked_up of
        Inl err \<Rightarrow>
          if errors_Is err ErrNoTransaction then
            (response\<lparr>Status := TransactionStatusNotFound\<rparr>, None)
          else (response, Some \<lparr>Code = InternalError, Message = Error (texts d) err\<rparr>)
      | Inr tx \<Rightarrow>
          (let response = response
                 \<lparr>ApplicationOrder := tx_ApplicationOrder tx,
                  FeeBump := tx_FeeBump tx,
                  Ledger := Sequence (tx_Ledger tx),
                  LedgerCloseTime' := CloseTime (tx_Ledger tx)\<rparr> in
           if Format request = FormatJSON then
             (case transactionToJSON d tx of
                Inl convErr \<Rightarrow>
                  (response, Some \<lparr>Code = InternalError, Message = Error (texts d) convErr\<rparr>)
              | Inr (result, envelope, meta) \<Rightarrow>
                  (case jsonifySlice d (tx_Events tx) of
                     Inl convErr \<Rightarrow>
                       (response, Some \<lparr>Code = InternalError, Message = Error (texts d) convErr\<rparr>)
                   | Inr diagEvents \<Rightarrow>
                       (set_status tx
                          (response\<lparr>ResultJSON := result, EnvelopeJSON := envelope,
                                    ResultMetaJSON := meta, DiagnosticEventsJSON := diagEvents\<rparr>),
                        None)))
           else
             (set_status tx
                (response\<lparr>ResultXDR := base64_EncodeToString (tx_Result tx),
                          EnvelopeXDR := base64_EncodeToString (tx_Envelope tx),
                          ResultMetaXDR := base64_EncodeToString (tx_Meta tx),
                          DiagnosticEventsXDR := base64EncodeSlice (tx_Events tx)\<rparr>),
              None)))"

text \<open>
  \<open>GetTransaction\<close>: the Go pair \<open>(response, err)\<close>, and the states of the transaction
  reader and of the ledger store after the call.
\<close>

definition GetTransaction ::
  "helpers \<Rightarrow> TransactionReader \<Rightarrow> DB \<Rightarrow> GetTransactionRequest
     \<Rightarrow> (GetTransactionResponse \<times> jrpc2_Error option) \<times> TransactionReader \<times> DB" where
  "GetTransaction d reader ledgerReader request =
     (case parse_request d request of
        Inl err \<Rightarrow> ((zero_GetTransactionResponse, Some err), reader, ledgerReader)
      | Inr txHash \<Rightarrow>
          (case GetLedgerRange ledgerReader of
             (Inl err, ledgerReader') \<Rightarrow>
               ((zero_GetTransactionResponse,
                 Some \<lparr>Code = InternalError,
                       Message = ''unable to get ledger range: '' @ Error (texts d) err\<rparr>),
                reader, ledgerReader')
           | (Inr storeRange, ledgerReader') \<Rightarrow>
               (case reader_GetTransaction txHash reader of
                  (looked_up, reader') \<Rightarrow>
                    (respond d request storeRange looked_up, reader', ledgerReader'))))"

section \<open>Notions used to state the properties\<close>

text \<open>A row whose stored bytes scan into a ledger, and the ledgers of such rows.\<close>

fun decodable :: "row \<Rightarrow> bool" where
  "decodable (k, Meta m) = True"
| "decodable (k, Undecodable e) = False"

fun ledgers_of :: "row list \<Rightarrow> LedgerCloseMeta list" where
  "ledgers_of [] = []"
| "ledgers_of ((k, Meta m) # rs) = m # ledgers_of rs"
| "ledgers_of ((k, Undecodable e) # rs) = ledgers_of rs"

text \<open>
  The rule of the spec for the hash of a request, in the spec's words: a hexadecimal string
  that decodes to exactly 32 bytes, that is, 64 hexadecimal digits.
\<close>

definition is_hex_digit :: "char \<Rightarrow> bool" where
  "is_hex_digit c = (c \<in> set ''0123456789abcdefABCDEF'')"

definition decodes_to_32_bytes :: "string \<Rightarrow> bool" where
  "decodes_to_32_bytes h = (length h = 64 \<and> (\<forall>c \<in> set h. is_hex_digit c))"

section \<open>Sample states\<close>

definition ledger_at :: "u32 \<Rightarrow> LedgerCloseMeta" where
  "ledger_at k = \<lparr>LedgerSequence = k, LedgerCloseTime = 1700000000 + ucast k, opaque = []\<rparr>"

text \<open>A store that holds the ledgers of the given sequences, with a warm cache.\<close>

definition store_with :: "u32 list \<Rightarrow> DB" where
  "store_with ks =
     \<lparr>table = map (\<lambda>k. (k, Meta (ledger_at k))) ks,
      latestLedgerSeq = (if ks = [] then 0 else last ks),
      latestLedgerCloseTime = (if ks = [] then 0 else LedgerCloseTime (ledger_at (last ks))),
      engine_error = None,
      issued = []\<rparr>"

text \<open>
  A sink that keeps the sequences it has seen and, on the ledger of sequence \<open>k\<close>, tells the
  stream to stop in the only way its type has: a non-nil error.
\<close>

definition done_after :: "u32 \<Rightarrow> (u32 list) StreamLedgerFn" where
  "done_after k m seen =
     (if LedgerSequence m = k then Some (New ''done'') else None, seen @ [LedgerSequence m])"

text \<open>A sink that keeps the sequences it has seen and never returns an error.\<close>

definition keep_all :: "(u32 list) StreamLedgerFn" where
  "keep_all m seen = (None, seen @ [LedgerSequence m])"

definition sample_helpers :: helpers where
  "sample_helpers =
     \<lparr>invalid_format_text = (\<lambda>f. ''unknown xdrFormat '' @ f),
      transactionToJSON = (\<lambda>tx. Inr (''{}'', ''{}'', ''{}'')),
      jsonifySlice = (\<lambda>xs. Inr (map (\<lambda>x. ''{}'') xs)),
      texts = \<lparr>ErrEmptyDB_text = ''DB is empty'',
               ErrNoTransaction_text = ''no transaction with this hash exists''\<rparr>\<rparr>"

definition sample_hash :: string where
  "sample_hash = replicate 64 CHR ''a''"

definition sample_tx :: "bool \<Rightarrow> byte list list \<Rightarrow> Transaction" where
  "sample_tx ok events =
     \<lparr>tx_Result = [1], tx_Meta = [2], tx_Envelope = [3], tx_Events = events,
      tx_FeeBump = False, tx_ApplicationOrder = 1, tx_Successful = ok,
      tx_Ledger = \<lparr>Sequence = 100, CloseTime = 1700000100\<rparr>\<rparr>"

text \<open>A reader whose index holds the given transaction under the bytes of \<open>sample_hash\<close>.\<close>

definition reader_with :: "Transaction \<Rightarrow> TransactionReader" where
  "reader_with tx =
     \<lparr>index = [replicate 32 0xaa \<mapsto> tx], reader_error = None, lookups = []\<rparr>"

definition empty_reader :: TransactionReader where
  "empty_reader = \<lparr>index = Map.empty, reader_error = None, lookups = []\<rparr>"

section \<open>Retention trimming\<close>

lemma below_cutoff_int:
  fixes L W k :: u32
  shows "(W < L + 1 \<and> k < L + 1 - W) = (uint k < (uint L + 1) mod 2 ^ 32 - uint W)"
proof -
  have s: "uint (L + 1) = (uint L + 1) mod 2 ^ 32"
    by (simp add: uint_word_ariths)
  show ?thesis
  proof (cases "W < L + 1")
    case True
    then have le: "uint W \<le> uint (L + 1)" by (simp add: word_less_alt)
    then have "uint (L + 1 - W) = uint (L + 1) - uint W"
      using uint_sub_lem by blast
    with True show ?thesis
      using s by (simp add: word_less_alt)
  next
    case False
    then have "uint (L + 1) \<le> uint W" by (simp add: word_less_alt not_less)
    moreover have "0 \<le> uint k" by simp
    ultimately show ?thesis using False s by linarith
  qed
qed

text \<open>
  Claim C5. While the engine accepts the statement, \<open>trimLedgers L W\<close> returns no error
  and keeps exactly the rows that are not below the cutoff: a row is deleted exactly when
  \<open>W < L + 1\<close> and its sequence is below \<open>L + 1 - W\<close>, all three operations being those of
  32-bit unsigned words. Read as integers, the deleted rows are those with sequence below
  \<open>(L + 1) mod 2^32 - W\<close>. When \<open>L + 1 \<le> W\<close> the call changes nothing and issues no
  statement.
\<close>

theorem trimLedgers_cutoff:
  assumes "engine_error db = None"
  shows "fst (trimLedgers L W db) = None
       \<and> table (snd (trimLedgers L W db)) = filter (\<lambda>r. \<not> (W < L + 1 \<and> fst r < L + 1 - W)) (table db)
       \<and> table (snd (trimLedgers L W db)) =
           filter (\<lambda>r. \<not> uint (fst r) < (uint L + 1) mod 2 ^ 32 - uint W) (table db)
       \<and> (L + 1 \<le> W \<longrightarrow> snd (trimLedgers L W db) = db)"
proof -
  have a: "fst (trimLedgers L W db) = None"
    using assms by (simp add: trimLedgers_def Exec_def Let_def)
  have b: "table (snd (trimLedgers L W db)) = filter (\<lambda>r. \<not> (W < L + 1 \<and> fst r < L + 1 - W)) (table db)"
  proof (cases "L + 1 \<le> W")
    case True
    then show ?thesis by (simp add: trimLedgers_def not_less)
  next
    case False
    then have "W < L + 1" by (simp add: not_le)
    with False show ?thesis using assms by (simp add: trimLedgers_def Exec_def Let_def)
  qed
  have c: "L + 1 \<le> W \<longrightarrow> snd (trimLedgers L W db) = db"
    by (simp add: trimLedgers_def)
  show ?thesis using a b c by (simp add: below_cutoff_int)
qed

text \<open>
  The theorem at the store of ledgers 1 to 5 with a window of 3 (ledgers 1 and 2 go), at a
  window larger than the store, and at the largest sequence, where \<open>L + 1\<close> wraps to 0.
\<close>

theorem trimLedgers_cutoff_witness:
  "engine_error (store_with [1, 2, 3, 4, 5]) = None
   \<and> table (snd (trimLedgers 5 3 (store_with [1, 2, 3, 4, 5]))) = table (store_with [3, 4, 5])
   \<and> snd (trimLedgers 2 3 (store_with [1, 2])) = store_with [1, 2]
   \<and> snd (trimLedgers (- 1) 3 (store_with [1, 2])) = store_with [1, 2]"
proof -
  have h: "engine_error (store_with [1, 2, 3, 4, 5]) = None" "engine_error (store_with [1, 2]) = None"
    by (simp_all add: store_with_def)
  show ?thesis
    using trimLedgers_cutoff [OF h(1), of 5 3] trimLedgers_cutoff [OF h(2), of 2 3]
      trimLedgers_cutoff [OF h(2), of "- 1" 3]
    by (simp add: store_with_def)
qed

section \<open>Hash validation\<close>

lemma of_char_inj_nat: "(of_char c :: nat) = of_char d \<Longrightarrow> c = d"
  by (rule of_char_eqI)

lemma is_hex_digit_code:
  "is_hex_digit c =
     ((48 \<le> (of_char c :: nat) \<and> (of_char c :: nat) \<le> 57)
      \<or> (97 \<le> (of_char c :: nat) \<and> (of_char c :: nat) \<le> 102)
      \<or> (65 \<le> (of_char c :: nat) \<and> (of_char c :: nat) \<le> 70))"
proof -
  have "is_hex_digit c = ((of_char c :: nat) \<in> of_char ` set ''0123456789abcdefABCDEF'')"
    unfolding is_hex_digit_def using of_char_inj_nat by blast
  also have "\<dots> = ((of_char c :: nat) \<in> {48, 49, 50, 51, 52, 53, 54, 55, 56, 57, 97, 98, 99, 100, 101, 102, 65, 66, 67, 68, 69, 70})"
    by simp
  also have "\<dots> = ((48 \<le> (of_char c :: nat) \<and> (of_char c :: nat) \<le> 57)
      \<or> (97 \<le> (of_char c :: nat) \<and> (of_char c :: nat) \<le> 102)
      \<or> (65 \<le> (of_char c :: nat) \<and> (of_char c :: nat) \<le> 70))"
    by simp arith
  finally show ?thesis .
qed

lemma small_byte: "k \<le> 15 \<Longrightarrow> \<not> (of_nat k :: byte) > 0x0f"
  by (simp add: word_less_nat_alt unat_of_nat)

lemma reverseHexTable_hex: "(reverseHexTable c > 0x0f) = (\<not> is_hex_digit c)"
proof (cases "is_hex_digit c")
  case True
  then show ?thesis
    unfolding is_hex_digit_code reverseHexTable_def Let_def
    by (auto intro!: small_byte simp del: of_nat_diff)
next
  case False
  then have "reverseHexTable c = 0xff"
    unfolding is_hex_digit_code reverseHexTable_def Let_def by auto
  with False show ?thesis by simp
qed

lemma hex_Decode_ok:
  "(snd (hex_Decode s) = None) = (even (length s) \<and> (\<forall>c \<in> set s. is_hex_digit c))"
proof (induction s rule: hex_Decode.induct)
  case (1 p q rest)
  show ?case
  proof (cases "reverseHexTable p > 0x0f \<or> reverseHexTable q > 0x0f")
    case True
    then show ?thesis using reverseHexTable_hex [of p] reverseHexTable_hex [of q]
      by (auto simp: Let_def)
  next
    case False
    then have "snd (hex_Decode (p # q # rest)) = snd (hex_Decode rest)"
      by (simp add: Let_def split: prod.splits)
    with False "1.IH" show ?thesis
      using reverseHexTable_hex [of p] reverseHexTable_hex [of q] by (auto simp: Let_def)
  qed
next
  case (2 p)
  then show ?case by simp
next
  case 3
  then show ?case by simp
qed

lemma hex_Decode_length:
  "snd (hex_Decode s) = None \<Longrightarrow> length (fst (hex_Decode s)) = length s div 2"
proof (induction s rule: hex_Decode.induct)
  case (1 p q rest)
  then show ?case by (auto simp: Let_def split: if_splits prod.splits)
next
  case (2 p)
  then show ?case by (simp split: if_splits)
next
  case 3
  then show ?case by simp
qed

lemma hex_DecodedLen_32: "(hex_DecodedLen n = len_xdr_Hash) = (n = 64 \<or> n = 65)"
  unfolding hex_DecodedLen_def len_xdr_Hash_def by presburger

lemma parse_request_ok:
  assumes "IsValidFormat d (Format request) = None" and "decodes_to_32_bytes (Hash request)"
  shows "parse_request d request = Inr (fst (hex_Decode (Hash request)))"
    and "length (fst (hex_Decode (Hash request))) = 32"
proof -
  have ok: "snd (hex_Decode (Hash request)) = None"
    using assms(2) by (simp add: hex_Decode_ok decodes_to_32_bytes_def)
  then show len: "length (fst (hex_Decode (Hash request))) = 32"
    using assms(2) hex_Decode_length [OF ok] by (simp add: decodes_to_32_bytes_def)
  have "hex_DecodedLen (length (Hash request)) = len_xdr_Hash"
    using assms(2) by (simp add: hex_DecodedLen_32 decodes_to_32_bytes_def)
  moreover obtain w where w: "hex_Decode (Hash request) = (w, None)"
    using ok by (cases "hex_Decode (Hash request)") auto
  ultimately show "parse_request d request = Inr (fst (hex_Decode (Hash request)))"
    using assms(1) len by (simp add: parse_request_def len_xdr_Hash_def)
qed

lemma parse_request_bad:
  assumes "\<not> decodes_to_32_bytes (Hash request)"
  shows "\<exists>msg. parse_request d request = Inl \<lparr>Code = InvalidParams, Message = msg\<rparr>"
proof (cases "IsValidFormat d (Format request)")
  case (Some err)
  then show ?thesis by (simp add: parse_request_def)
next
  case None
  show ?thesis
  proof (cases "hex_DecodedLen (length (Hash request)) = len_xdr_Hash")
    case False
    with None show ?thesis by (simp add: parse_request_def)
  next
    case True
    then have l: "length (Hash request) = 64 \<or> length (Hash request) = 65"
      by (simp add: hex_DecodedLen_32)
    have "snd (hex_Decode (Hash request)) \<noteq> None"
      using assms l by (auto simp: hex_Decode_ok decodes_to_32_bytes_def)
    then obtain w e where "hex_Decode (Hash request) = (w, Some e)"
      by (cases "hex_Decode (Hash request)") auto
    with None True show ?thesis by (simp add: parse_request_def)
  qed
qed

section \<open>The ledger range\<close>

lemma min_sequence_Min: "t \<noteq> [] \<Longrightarrow> min_sequence t = Some (Min (fst ` set t))"
proof (induction t)
  case Nil
  then show ?case by simp
next
  case (Cons r rs)
  show ?case
  proof (cases "rs = []")
    case True
    then show ?thesis by simp
  next
    case False
    with Cons.IH have "min_sequence rs = Some (Min (fst ` set rs))" by simp
    with False show ?thesis by (simp add: Min_insert)
  qed
qed

lemma min_sequence_empty: "(min_sequence t = None) = (t = [])"
  by (cases t) (auto split: option.splits)

lemma scan_all_decodable:
  "\<forall>r \<in> set rs. decodable r \<Longrightarrow> scan_all rs = Inr (ledgers_of rs)"
proof (induction rs rule: ledgers_of.induct)
  case 1
  then show ?case by simp
next
  case (2 k m rs)
  then show ?case by simp
next
  case (3 k e rs)
  then show ?case by simp
qed

lemma ledgers_of_Nil: "\<forall>r \<in> set rs. decodable r \<Longrightarrow> (ledgers_of rs = []) = (rs = [])"
  by (induction rs rule: ledgers_of.induct) auto

lemma hd_ledgers_of:
  "\<forall>r \<in> set rs. decodable r \<Longrightarrow> ledgers_of rs = m # ms \<Longrightarrow> \<exists>k. (k, Meta m) \<in> set rs \<and> (k, Meta m) = hd rs"
  by (induction rs rule: ledgers_of.induct) auto

lemma Select_issued: "issued (snd (Select q db)) = issued db @ [q]"
  by (simp add: Select_def Let_def split: option.splits)

lemma Select_table: "table (snd (Select q db)) = table db"
  by (simp add: Select_def Let_def split: option.splits)

lemma Select_ok:
  "engine_error db = None \<Longrightarrow> \<forall>r \<in> set (rows_of q (table db)). decodable r \<Longrightarrow>
   fst (Select q db) = Inr (ledgers_of (rows_of q (table db)))"
  by (simp add: Select_def Let_def scan_all_decodable)

lemma GetLedgerRange_warm:
  assumes "latestLedgerSeq db \<noteq> 0"
  shows "GetLedgerRange db =
     (case fst (Select SelectMin db) of
        Inl err \<Rightarrow> Inl (Wrap ''couldn't query ledger range: '' err)
      | Inr [] \<Rightarrow> Inl ErrEmptyDB
      | Inr (m # ms) \<Rightarrow>
          Inr \<lparr>FirstLedger = LedgerInfo_of m,
               LastLedger = \<lparr>Sequence = latestLedgerSeq db, CloseTime = latestLedgerCloseTime db\<rparr>\<rparr>,
      snd (Select SelectMin db))"
  using assms by (simp add: GetLedgerRange_def Let_def split: prod.splits sum.splits list.splits)

text \<open>
  Claim C6. When the cached latest sequence is not zero, \<open>GetLedgerRange\<close> issues exactly
  one statement, the selection of the rows whose sequence is the minimum of the table, and
  leaves the table as it is. When the engine answers and the rows scan, the range returned
  has its first ledger from a row of minimum sequence and its last ledger, sequence and
  close time, from the cache.
\<close>

theorem GetLedgerRange_cached_latest:
  assumes "latestLedgerSeq db \<noteq> 0"
  shows "issued (snd (GetLedgerRange db)) = issued db @ [SelectMin]
       \<and> table (snd (GetLedgerRange db)) = table db
       \<and> (table db \<noteq> [] \<longrightarrow>
            rows_of SelectMin (table db) = filter (\<lambda>r. fst r = Min (fst ` set (table db))) (table db))
       \<and> (engine_error db = None \<and> table db \<noteq> [] \<and> (\<forall>r \<in> set (table db). decodable r) \<longrightarrow>
            (\<exists>m. (Min (fst ` set (table db)), Meta m) \<in> set (table db)
                \<and> fst (GetLedgerRange db) =
                    Inr \<lparr>FirstLedger = LedgerInfo_of m,
                         LastLedger = \<lparr>Sequence = latestLedgerSeq db,
                                       CloseTime = latestLedgerCloseTime db\<rparr>\<rparr>))"
proof -
  note w = GetLedgerRange_warm [OF assms]
  have a: "issued (snd (GetLedgerRange db)) = issued db @ [SelectMin]"
    by (simp add: w Select_issued)
  have b: "table (snd (GetLedgerRange db)) = table db"
    by (simp add: w Select_table)
  have c: "rows_of SelectMin (table db) = filter (\<lambda>r. fst r = Min (fst ` set (table db))) (table db)"
    if "table db \<noteq> []"
    using that by (simp add: min_sequence_Min)
  have d: "\<exists>m. (Min (fst ` set (table db)), Meta m) \<in> set (table db)
                \<and> fst (GetLedgerRange db) =
                    Inr \<lparr>FirstLedger = LedgerInfo_of m,
                         LastLedger = \<lparr>Sequence = latestLedgerSeq db,
                                       CloseTime = latestLedgerCloseTime db\<rparr>\<rparr>"
    if e: "engine_error db = None" and ne: "table db \<noteq> []" and dec: "\<forall>r \<in> set (table db). decodable r"
  proof -
    let ?rows = "rows_of SelectMin (table db)"
    have rows: "?rows = filter (\<lambda>r. fst r = Min (fst ` set (table db))) (table db)"
      by (rule c [OF ne])
    have "Min (fst ` set (table db)) \<in> fst ` set (table db)"
      using ne by (intro Min_in) auto
    then have rne: "?rows \<noteq> []"
      unfolding rows by (force simp: filter_empty_conv)
    have rdec: "\<forall>r \<in> set ?rows. decodable r"
      unfolding rows using dec by auto
    have sel: "fst (Select SelectMin db) = Inr (ledgers_of ?rows)"
      by (rule Select_ok [OF e rdec])
    from rne rdec obtain m ms where ms: "ledgers_of ?rows = m # ms"
      using ledgers_of_Nil [OF rdec] by (cases "ledgers_of ?rows") auto
    from hd_ledgers_of [OF rdec ms] obtain k where k: "(k, Meta m) \<in> set ?rows"
      by blast
    then have "(Min (fst ` set (table db)), Meta m) \<in> set (table db)"
      unfolding rows by auto
    moreover have "fst (GetLedgerRange db) =
        Inr \<lparr>FirstLedger = LedgerInfo_of m,
             LastLedger = \<lparr>Sequence = latestLedgerSeq db, CloseTime = latestLedgerCloseTime db\<rparr>\<rparr>"
      using sel ms by (simp add: w del: rows_of.simps)
    ultimately show ?thesis by blast
  qed
  show ?thesis using a b c d by blast
qed

text \<open>The theorem at a store that holds ledgers 5, 3 and 4, the cache naming ledger 4.\<close>

theorem GetLedgerRange_cached_latest_witness:
  "latestLedgerSeq (store_with [5, 3, 4]) \<noteq> 0
   \<and> issued (snd (GetLedgerRange (store_with [5, 3, 4]))) = [SelectMin]
   \<and> fst (GetLedgerRange (store_with [5, 3, 4])) =
       Inr \<lparr>FirstLedger = LedgerInfo_of (ledger_at 3),
            LastLedger = \<lparr>Sequence = 4, CloseTime = 1700000004\<rparr>\<rparr>"
proof -
  have h: "latestLedgerSeq (store_with [5, 3, 4]) \<noteq> 0"
    by (simp add: store_with_def)
  have m: "Min (fst ` set (table (store_with [5, 3, 4]))) = 3"
    by (simp add: store_with_def)
  show ?thesis
    using h GetLedgerRange_cached_latest [OF h]
    by (auto simp: m) (auto simp: store_with_def ledger_at_def)
qed


section \<open>Point lookup\<close>

lemma GetLedger_unfold:
  "fst (GetLedger sequence db) =
     (case fst (Select (SelectEq sequence) db) of
        Inl err \<Rightarrow> (zero_LedgerCloseMeta, False, Some err)
      | Inr [] \<Rightarrow> (zero_LedgerCloseMeta, False, None)
      | Inr [r] \<Rightarrow> (r, True, None)
      | Inr (r # r' # rs) \<Rightarrow>
          (zero_LedgerCloseMeta, False,
           Some (New (''multiple lcm entries ('' @ show_nat (Suc (Suc (length rs))) @
                      '') for sequence '' @ show_nat (unat sequence) @
                      '' in table '' @ show_quoted ledgerCloseMetaTableName))))"
  by (simp add: GetLedger_def split: prod.splits sum.splits list.splits)

lemma length_ledgers_of: "\<forall>r \<in> set rs. decodable r \<Longrightarrow> length (ledgers_of rs) = length rs"
  by (induction rs rule: ledgers_of.induct) auto

text \<open>
  Claim C7. While the engine answers and the rows of the sequence scan, \<open>GetLedger\<close>
  returns \<open>(zero value, false, nil)\<close> when no row has the sequence, \<open>(ledger, true, nil)\<close>
  when exactly one has, and an error (with the zero value and \<open>false\<close>) when more than one
  has; the error is the text \<open>multiple lcm entries (n) for sequence s in table
  "ledger_close_meta"\<close>. The call issues the one point selection.
\<close>

theorem GetLedger_by_number_of_rows:
  assumes "engine_error db = None"
      and "\<forall>r \<in> set (table db). fst r = sequence \<longrightarrow> decodable r"
  shows "(filter (\<lambda>r. fst r = sequence) (table db) = [] \<longrightarrow>
            fst (GetLedger sequence db) = (zero_LedgerCloseMeta, False, None))
       \<and> (\<forall>m. filter (\<lambda>r. fst r = sequence) (table db) = [(sequence, Meta m)] \<longrightarrow>
            fst (GetLedger sequence db) = (m, True, None))
       \<and> (1 < length (filter (\<lambda>r. fst r = sequence) (table db)) \<longrightarrow>
            fst (GetLedger sequence db) =
              (zero_LedgerCloseMeta, False,
               Some (New (''multiple lcm entries ('' @
                          show_nat (length (filter (\<lambda>r. fst r = sequence) (table db))) @
                          '') for sequence '' @ show_nat (unat sequence) @
                          '' in table '' @ show_quoted ledgerCloseMetaTableName))))
       \<and> issued (snd (GetLedger sequence db)) = issued db @ [SelectEq sequence]"
proof -
  let ?rows = "filter (\<lambda>r. fst r = sequence) (table db)"
  have dec: "\<forall>r \<in> set (rows_of (SelectEq sequence) (table db)). decodable r"
    using assms(2) by simp
  have sel: "fst (Select (SelectEq sequence) db) = Inr (ledgers_of ?rows)"
    using Select_ok [OF assms(1) dec] by simp
  have len: "length (ledgers_of ?rows) = length ?rows"
    using dec by (simp add: length_ledgers_of)
  have a: "?rows = [] \<longrightarrow> fst (GetLedger sequence db) = (zero_LedgerCloseMeta, False, None)"
    by (simp add: GetLedger_unfold sel)
  have b: "\<forall>m. ?rows = [(sequence, Meta m)] \<longrightarrow> fst (GetLedger sequence db) = (m, True, None)"
    by (simp add: GetLedger_unfold sel)
  have c: "1 < length ?rows \<longrightarrow>
            fst (GetLedger sequence db) =
              (zero_LedgerCloseMeta, False,
               Some (New (''multiple lcm entries ('' @ show_nat (length ?rows) @
                          '') for sequence '' @ show_nat (unat sequence) @
                          '' in table '' @ show_quoted ledgerCloseMetaTableName)))"
  proof
    assume "1 < length ?rows"
    with len obtain r r' rs where l: "ledgers_of ?rows = r # r' # rs"
      by (cases "ledgers_of ?rows"; cases "tl (ledgers_of ?rows)") auto
    then have "Suc (Suc (length rs)) = length ?rows" using len by simp
    with l show "fst (GetLedger sequence db) =
              (zero_LedgerCloseMeta, False,
               Some (New (''multiple lcm entries ('' @ show_nat (length ?rows) @
                          '') for sequence '' @ show_nat (unat sequence) @
                          '' in table '' @ show_quoted ledgerCloseMetaTableName)))"
      by (simp add: GetLedger_unfold sel)
  qed
  have "snd (GetLedger sequence db) = snd (Select (SelectEq sequence) db)"
    by (cases "Select (SelectEq sequence) db")
      (simp add: GetLedger_def split: sum.splits list.splits)
  then have d: "issued (snd (GetLedger sequence db)) = issued db @ [SelectEq sequence]"
    by (simp add: Select_issued)
  show ?thesis using a b c d by blast
qed

text \<open>The theorem at a table with one row of sequence 1 and two rows of sequence 3.\<close>

theorem GetLedger_by_number_of_rows_witness:
  "fst (GetLedger 2 (store_with [1, 3, 3])) = (zero_LedgerCloseMeta, False, None)
   \<and> fst (GetLedger 1 (store_with [1, 3, 3])) = (ledger_at 1, True, None)
   \<and> fst (GetLedger 3 (store_with [1, 3, 3])) =
       (zero_LedgerCloseMeta, False,
        Some (New (''multiple lcm entries (2) for sequence 3 in table '' @ [CHR 0x22] @ ''ledger_close_meta'' @ [CHR 0x22])))"
proof -
  have e: "engine_error (store_with [1, 3, 3]) = None"
    by (simp add: store_with_def)
  have d: "\<forall>r \<in> set (table (store_with [1, 3, 3])). fst r = k \<longrightarrow> decodable r" for k
    by (simp add: store_with_def)
  have n: "show_nat 2 = ''2''" "show_nat (Suc (Suc 0)) = ''2''" "show_nat 3 = ''3''"
    by code_simp+
  show ?thesis
    using GetLedger_by_number_of_rows [OF e d, of 2] GetLedger_by_number_of_rows [OF e d, of 1]
      GetLedger_by_number_of_rows [OF e d, of 3]
    by (simp add: store_with_def n show_quoted_def ledgerCloseMetaTableName_def)
qed

section \<open>Streaming a range of ledgers\<close>

lemma stream_rows_quiet:
  assumes "\<forall>m s. fst (f m s) = None" and "\<forall>r \<in> set rows. decodable r"
  shows "fst (stream_rows f rows s) = None \<and> snd (snd (stream_rows f rows s)) = ledgers_of rows"
  using assms(2)
proof (induction rows arbitrary: s rule: ledgers_of.induct)
  case 1
  then show ?case by simp
next
  case (2 k m rs)
  obtain s' where f: "f m s = (None, s')"
    using assms(1) by (metis fst_conv surj_pair)
  from 2 have "fst (stream_rows f rs s') = None \<and> snd (snd (stream_rows f rs s')) = ledgers_of rs"
    by simp
  with f show ?case by (cases "stream_rows f rs s'") simp
next
  case (3 k e rs)
  then show ?case by simp
qed

lemma stream_rows_complete:
  assumes "\<forall>r \<in> set rows. decodable r" and "fst (stream_rows f rows s) = None"
  shows "snd (snd (stream_rows f rows s)) = ledgers_of rows"
  using assms
proof (induction rows arbitrary: s rule: ledgers_of.induct)
  case 1
  then show ?case by simp
next
  case (2 k m rs)
  obtain r s' where f: "f m s = (r, s')" by (cases "f m s")
  show ?case
  proof (cases r)
    case None
    obtain r2 s2 c2 where t: "stream_rows f rs s' = (r2, s2, c2)"
      by (cases "stream_rows f rs s'") auto
    with 2(3) f None have "fst (stream_rows f rs s') = None" by simp
    moreover from 2(2) have "\<forall>r \<in> set rs. decodable r" by simp
    ultimately have "snd (snd (stream_rows f rs s')) = ledgers_of rs" by (rule 2(1) [rotated])
    with f None t show ?thesis by simp
  next
    case (Some e)
    with 2 f show ?thesis by simp
  qed
next
  case (3 k e rs)
  then show ?case by simp
qed

lemma stream_rows_append:
  assumes "stream_rows f pre s = (None, s1, c1)"
  shows "stream_rows f (pre @ rest) s =
           (case stream_rows f rest s1 of (e, s2, c2) \<Rightarrow> (e, s2, c1 @ c2))"
  using assms
proof (induction f pre s arbitrary: c1 rule: stream_rows.induct)
  case (1 f s)
  then show ?case by (simp split: prod.splits)
next
  case (2 f k e rs s)
  then show ?case by simp
next
  case (3 f k m rs s)
  obtain r s' where f: "f m s = (r, s')" by (cases "f m s")
  show ?case
  proof (cases r)
    case None
    obtain r2 s2 c2 where t: "stream_rows f rs s' = (r2, s2, c2)"
      by (cases "stream_rows f rs s'") auto
    with 3(2) f None have "r2 = None" "s2 = s1" "c1 = m # c2" by auto
    with t have "stream_rows f rs s' = (None, s1, c2)" by simp
    from 3(1) [OF f [unfolded None, symmetric] refl this] f None \<open>c1 = m # c2\<close>
    show ?thesis by (simp split: prod.splits)
  next
    case (Some e)
    with 3(2) f show ?thesis by simp
  qed
qed

lemma Query_ok:
  "engine_error db = None \<Longrightarrow> Query q db = (Inr (rows_of q (table db)), db\<lparr>issued := issued db @ [q]\<rparr>)"
  by (simp add: Query_def Let_def)

lemma StreamLedgerRange_ok:
  "engine_error db = None \<Longrightarrow>
   fst (StreamLedgerRange a b f s db) = stream_rows f (rows_of (SelectRangeAsc a b) (table db)) s"
  by (simp add: StreamLedgerRange_def Query_ok del: rows_of.simps)

text \<open>
  Claim C8, as the code has it. While the engine answers and the rows of the range scan,
  the rows \<open>StreamLedgerRange\<close> reads are the stored rows with sequence in the inclusive
  range, each once, in ascending order of sequence. A sink that never returns an error is
  invoked on each of them in that order and the stream returns nil. The stream returns nil
  only when every ledger of the range was delivered. When the sink returns a non-nil error
  on a ledger, the sink having accepted all ledgers before it, the stream stops there: it
  returns that same error, and it has delivered the ledgers up to and including that one
  and none of the later ones. The type of the sink has no other way to tell the stream to
  stop, so a stream that stops early always returns an error.
\<close>

theorem StreamLedgerRange_delivery:
  assumes "engine_error db = None"
      and "\<forall>r \<in> set (table db). startLedger \<le> fst r \<and> fst r \<le> endLedger \<longrightarrow> decodable r"
  shows "sorted (map fst (rows_of (SelectRangeAsc startLedger endLedger) (table db)))
       \<and> mset (rows_of (SelectRangeAsc startLedger endLedger) (table db)) =
           mset (filter (\<lambda>r. startLedger \<le> fst r \<and> fst r \<le> endLedger) (table db))
       \<and> ((\<forall>m s. fst (f m s) = None) \<longrightarrow>
            fst (fst (StreamLedgerRange startLedger endLedger f s db)) = None
            \<and> snd (snd (fst (StreamLedgerRange startLedger endLedger f s db))) =
                ledgers_of (rows_of (SelectRangeAsc startLedger endLedger) (table db)))
       \<and> (fst (fst (StreamLedgerRange startLedger endLedger f s db)) = None \<longrightarrow>
            snd (snd (fst (StreamLedgerRange startLedger endLedger f s db))) =
              ledgers_of (rows_of (SelectRangeAsc startLedger endLedger) (table db)))
       \<and> (\<forall>pre k m post s1 e s2.
            rows_of (SelectRangeAsc startLedger endLedger) (table db) = pre @ (k, Meta m) # post
            \<and> stream_rows f pre s = (None, s1, ledgers_of pre)
            \<and> f m s1 = (Some e, s2) \<longrightarrow>
            fst (StreamLedgerRange startLedger endLedger f s db) = (Some e, s2, ledgers_of pre @ [m]))"
proof -
  let ?R = "rows_of (SelectRangeAsc startLedger endLedger) (table db)"
  note run = StreamLedgerRange_ok [OF assms(1), of startLedger endLedger f s]
  have dec: "\<forall>r \<in> set ?R. decodable r"
    using assms(2) by simp
  have a: "sorted (map fst ?R)" by simp
  have b: "mset ?R = mset (filter (\<lambda>r. startLedger \<le> fst r \<and> fst r \<le> endLedger) (table db))"
    by simp
  have c: "(\<forall>m s. fst (f m s) = None) \<longrightarrow>
            fst (fst (StreamLedgerRange startLedger endLedger f s db)) = None
            \<and> snd (snd (fst (StreamLedgerRange startLedger endLedger f s db))) = ledgers_of ?R"
  proof
    assume "\<forall>m s. fst (f m s) = None"
    from stream_rows_quiet [OF this dec]
    show "fst (fst (StreamLedgerRange startLedger endLedger f s db)) = None
            \<and> snd (snd (fst (StreamLedgerRange startLedger endLedger f s db))) = ledgers_of ?R"
      unfolding run .
  qed
  have d: "fst (fst (StreamLedgerRange startLedger endLedger f s db)) = None \<longrightarrow>
            snd (snd (fst (StreamLedgerRange startLedger endLedger f s db))) = ledgers_of ?R"
  proof
    assume "fst (fst (StreamLedgerRange startLedger endLedger f s db)) = None"
    then have "fst (stream_rows f ?R s) = None" unfolding run .
    from stream_rows_complete [OF dec this]
    show "snd (snd (fst (StreamLedgerRange startLedger endLedger f s db))) = ledgers_of ?R"
      unfolding run .
  qed
  have e: "fst (StreamLedgerRange startLedger endLedger f s db) = (Some e, s2, ledgers_of pre @ [m])"
    if "?R = pre @ (k, Meta m) # post" "stream_rows f pre s = (None, s1, ledgers_of pre)"
       "f m s1 = (Some e, s2)" for pre k m post s1 e s2
    unfolding run that(1) using stream_rows_append [OF that(2)] that(3) by simp
  show ?thesis using a b c d e by blast
qed

text \<open>
  The theorem at the store of ledgers 10 to 20 and the range 12 to 15: the sink that accepts
  everything sees 12, 13, 14, 15; the sink that stops on 13 sees 12 and 13, and the stream
  returns the sink's error.
\<close>

theorem StreamLedgerRange_delivery_witness:
  "fst (StreamLedgerRange 12 15 keep_all [] (store_with [10, 11, 12, 13, 14, 15, 16, 17, 18, 19, 20])) =
     (None, [12, 13, 14, 15], [ledger_at 12, ledger_at 13, ledger_at 14, ledger_at 15])
   \<and> fst (StreamLedgerRange 12 15 (done_after 13) [] (store_with [10, 11, 12, 13, 14, 15, 16, 17, 18, 19, 20])) =
     (Some (New ''done''), [12, 13], [ledger_at 12, ledger_at 13])"
proof -
  let ?db = "store_with [10, 11, 12, 13, 14, 15, 16, 17, 18, 19, 20]"
  have h1: "engine_error ?db = None"
    by (simp add: store_with_def)
  have h2: "\<forall>r \<in> set (table ?db). 12 \<le> fst r \<and> fst r \<le> 15 \<longrightarrow> decodable r"
    by (simp add: store_with_def)
  have R: "rows_of (SelectRangeAsc 12 15) (table ?db) =
             [(12, Meta (ledger_at 12))] @ (13, Meta (ledger_at 13)) # [(14, Meta (ledger_at 14)), (15, Meta (ledger_at 15))]"
    by (simp add: store_with_def)
  have q: "\<forall>m s. fst (keep_all m s) = None"
    by (simp add: keep_all_def)
  have p: "stream_rows (done_after 13) [(12, Meta (ledger_at 12))] [] = (None, [12], ledgers_of [(12, Meta (ledger_at 12))])"
    by (simp add: done_after_def ledger_at_def)
  have g: "done_after 13 (ledger_at 13) [12] = (Some (New ''done''), [12, 13])"
    by (simp add: done_after_def ledger_at_def)
  have k: "snd (stream_rows keep_all (rows_of (SelectRangeAsc 12 15) (table ?db)) []) = ([12, 13, 14, 15], [ledger_at 12, ledger_at 13, ledger_at 14, ledger_at 15])"
    unfolding R by (simp add: keep_all_def ledger_at_def)
  note t1 = StreamLedgerRange_delivery [OF h1 h2, of keep_all "[]"]
  note t2 = StreamLedgerRange_delivery [OF h1 h2, of "done_after 13" "[]"]
  have first: "fst (StreamLedgerRange 12 15 keep_all [] ?db) = (None, [12, 13, 14, 15], [ledger_at 12, ledger_at 13, ledger_at 14, ledger_at 15])"
  proof -
    from t1 q have "fst (fst (StreamLedgerRange 12 15 keep_all [] ?db)) = None" by blast
    moreover have "snd (fst (StreamLedgerRange 12 15 keep_all [] ?db)) = ([12, 13, 14, 15], [ledger_at 12, ledger_at 13, ledger_at 14, ledger_at 15])"
      using k unfolding StreamLedgerRange_ok [OF h1] .
    ultimately show ?thesis by (simp add: prod_eq_iff)
  qed
  have second: "fst (StreamLedgerRange 12 15 (done_after 13) [] ?db) = (Some (New ''done''), [12, 13], [ledger_at 12, ledger_at 13])"
  proof -
    from t2 have "\<forall>pre k m post s1 e s2.
            rows_of (SelectRangeAsc 12 15) (table ?db) = pre @ (k, Meta m) # post
            \<and> stream_rows (done_after 13) pre [] = (None, s1, ledgers_of pre)
            \<and> done_after 13 m s1 = (Some e, s2) \<longrightarrow>
            fst (StreamLedgerRange 12 15 (done_after 13) [] ?db) = (Some e, s2, ledgers_of pre @ [m])"
      by (elim conjE)
    then have "rows_of (SelectRangeAsc 12 15) (table ?db) = [(12, Meta (ledger_at 12))] @ (13, Meta (ledger_at 13)) # [(14, Meta (ledger_at 14)), (15, Meta (ledger_at 15))]
            \<and> stream_rows (done_after 13) [(12, Meta (ledger_at 12))] [] = (None, [12], ledgers_of [(12, Meta (ledger_at 12))])
            \<and> done_after 13 (ledger_at 13) [12] = (Some (New ''done''), [12, 13]) \<longrightarrow>
            fst (StreamLedgerRange 12 15 (done_after 13) [] ?db) = (Some (New ''done''), [12, 13], ledgers_of [(12, Meta (ledger_at 12))] @ [ledger_at 13])"
      by (elim allE)
    with R p g show ?thesis by simp
  qed
  show ?thesis using first second by simp
qed

text \<open>
  Claim C8 as the spec states it says that a sink that signals it is done after ledger 13
  makes the stream stop without error. On the store of ledgers 10 to 20 and the range 12 to
  15, the stream that such a sink stops returns the sink's error, not nil.
\<close>

theorem StreamLedgerRange_done_counterexample:
  "fst (fst (StreamLedgerRange 12 15 (done_after 13) []
               (store_with [10, 11, 12, 13, 14, 15, 16, 17, 18, 19, 20]))) = Some (New ''done'')"
  by (simp add: StreamLedgerRange_def Query_def store_with_def done_after_def ledger_at_def)

section \<open>Hash validation in getTransaction\<close>

lemma GetTransaction_unparsed:
  "parse_request d request = Inl err \<Longrightarrow>
   GetTransaction d reader ledgerReader request =
     ((zero_GetTransactionResponse, Some err), reader, ledgerReader)"
  by (simp add: GetTransaction_def)

lemma GetTransaction_parsed:
  "parse_request d request = Inr txHash \<Longrightarrow>
   GetTransaction d reader ledgerReader request =
     (case GetLedgerRange ledgerReader of
        (Inl err, ledgerReader') \<Rightarrow>
          ((zero_GetTransactionResponse,
            Some \<lparr>Code = InternalError,
                  Message = ''unable to get ledger range: '' @ Error (texts d) err\<rparr>),
           reader, ledgerReader')
      | (Inr storeRange, ledgerReader') \<Rightarrow>
          (respond d request storeRange (fst (reader_GetTransaction txHash reader)),
           snd (reader_GetTransaction txHash reader), ledgerReader'))"
  by (simp add: GetTransaction_def split: prod.splits sum.splits)

lemma GetTransaction_bad_hash:
  assumes "\<not> decodes_to_32_bytes (Hash request)"
  shows "\<exists>msg. GetTransaction d reader ledgerReader request =
           ((zero_GetTransactionResponse, Some \<lparr>Code = InvalidParams, Message = msg\<rparr>),
            reader, ledgerReader)"
  using parse_request_bad [OF assms, of d] GetTransaction_unparsed by blast

text \<open>
  Claim C4. A request whose hash is not 64 hexadecimal digits, that is, does not decode to
  exactly 32 bytes, fails with the code of invalid parameters, -32602. The call returns the
  transaction reader and the ledger store as it received them: no transaction lookup and no
  store statement. For the hash \<open>ab\<close> (with a valid format) the message is
  \<open>unexpected hash length (2)\<close>.
\<close>

theorem GetTransaction_rejects_bad_hash:
  "(\<not> decodes_to_32_bytes (Hash request) \<longrightarrow>
      (\<exists>msg. GetTransaction d reader ledgerReader request =
         ((zero_GetTransactionResponse, Some \<lparr>Code = - 32602, Message = msg\<rparr>),
          reader, ledgerReader)))
   \<and> (IsValidFormat d (Format request) = None \<and> Hash request = ''ab'' \<longrightarrow>
        GetTransaction d reader ledgerReader request =
          ((zero_GetTransactionResponse,
            Some \<lparr>Code = - 32602, Message = ''unexpected hash length (2)''\<rparr>),
           reader, ledgerReader))"
proof -
  have a: "\<not> decodes_to_32_bytes (Hash request) \<longrightarrow>
      (\<exists>msg. GetTransaction d reader ledgerReader request =
         ((zero_GetTransactionResponse, Some \<lparr>Code = - 32602, Message = msg\<rparr>),
          reader, ledgerReader))"
    using GetTransaction_bad_hash [of request d reader ledgerReader]
    by (simp add: InvalidParams_def)
  have n: "show_nat (Suc (Suc 0)) = ''2''" by code_simp
  have b: "GetTransaction d reader ledgerReader request =
          ((zero_GetTransactionResponse,
            Some \<lparr>Code = - 32602, Message = ''unexpected hash length (2)''\<rparr>),
           reader, ledgerReader)"
    if "IsValidFormat d (Format request) = None" "Hash request = ''ab''"
  proof -
    have "parse_request d request =
            Inl \<lparr>Code = InvalidParams, Message = ''unexpected hash length (2)''\<rparr>"
      using that n by (simp add: parse_request_def hex_DecodedLen_def len_xdr_Hash_def)
    then show ?thesis by (simp add: GetTransaction_unparsed InvalidParams_def)
  qed
  show ?thesis using a b by blast
qed

text \<open>The theorem at the hash \<open>ab\<close>.\<close>

theorem GetTransaction_rejects_bad_hash_witness:
  "\<not> decodes_to_32_bytes ''ab''
   \<and> GetTransaction sample_helpers (reader_with (sample_tx True [])) (store_with [100])
         \<lparr>Hash = ''ab'', Format = []\<rparr> =
       ((zero_GetTransactionResponse,
         Some \<lparr>Code = - 32602, Message = ''unexpected hash length (2)''\<rparr>),
        reader_with (sample_tx True []), store_with [100])"
proof -
  have h: "\<not> decodes_to_32_bytes (Hash \<lparr>Hash = ''ab'', Format = []\<rparr>)"
    by (simp add: decodes_to_32_bytes_def)
  have v: "IsValidFormat sample_helpers (Format \<lparr>Hash = ''ab'', Format = []\<rparr>) = None"
    by (simp add: IsValidFormat_def)
  show ?thesis
    using h v GetTransaction_rejects_bad_hash
      [of "\<lparr>Hash = ''ab'', Format = []\<rparr>" sample_helpers "reader_with (sample_tx True [])" "store_with [100]"]
    by simp
qed

text \<open>
  Claim C10. The length check compares \<open>hex.DecodedLen(len(hash))\<close>, half the length
  rounded down, with 32: it accepts the lengths 64 and 65 and no other. A hash of 65
  characters passes the length check and fails in \<open>hex.Decode\<close>: the call returns invalid
  parameters with a message that starts \<open>incorrect hash: \<close>, not the message of the length
  check. Every hash that does not decode to 32 bytes gives invalid parameters, with no
  lookup recorded by the reader and no statement issued to the store.
\<close>

theorem hash_length_check_accepts_65:
  "(hex_DecodedLen n = len_xdr_Hash) = (n = 64 \<or> n = 65)
   \<and> (IsValidFormat d (Format request) = None \<and> length (Hash request) = 65 \<longrightarrow>
        (\<exists>err. GetTransaction d reader ledgerReader request =
           ((zero_GetTransactionResponse,
             Some \<lparr>Code = InvalidParams, Message = ''incorrect hash: '' @ hex_error_Error err\<rparr>),
            reader, ledgerReader)))
   \<and> (\<not> decodes_to_32_bytes (Hash request) \<longrightarrow>
        (\<exists>e. snd (fst (GetTransaction d reader ledgerReader request)) = Some e \<and> Code e = InvalidParams)
        \<and> lookups (fst (snd (GetTransaction d reader ledgerReader request))) = lookups reader
        \<and> issued (snd (snd (GetTransaction d reader ledgerReader request))) = issued ledgerReader)"
proof -
  have b: "\<exists>err. GetTransaction d reader ledgerReader request =
           ((zero_GetTransactionResponse,
             Some \<lparr>Code = InvalidParams, Message = ''incorrect hash: '' @ hex_error_Error err\<rparr>),
            reader, ledgerReader)"
    if v: "IsValidFormat d (Format request) = None" and l: "length (Hash request) = 65"
  proof -
    have "snd (hex_Decode (Hash request)) \<noteq> None"
      using l by (simp add: hex_Decode_ok)
    then obtain w err where "hex_Decode (Hash request) = (w, Some err)"
      by (cases "hex_Decode (Hash request)") auto
    with v l have "parse_request d request =
        Inl \<lparr>Code = InvalidParams, Message = ''incorrect hash: '' @ hex_error_Error err\<rparr>"
      by (simp add: parse_request_def hex_DecodedLen_def len_xdr_Hash_def)
    then show ?thesis using GetTransaction_unparsed by blast
  qed
  have c: "(\<exists>e. snd (fst (GetTransaction d reader ledgerReader request)) = Some e \<and> Code e = InvalidParams)
        \<and> lookups (fst (snd (GetTransaction d reader ledgerReader request))) = lookups reader
        \<and> issued (snd (snd (GetTransaction d reader ledgerReader request))) = issued ledgerReader"
    if "\<not> decodes_to_32_bytes (Hash request)"
    using GetTransaction_bad_hash [OF that, of d reader ledgerReader] by auto
  show ?thesis using hex_DecodedLen_32 [of n] b c by blast
qed

text \<open>The theorem at a hash of 65 times the digit \<open>a\<close>.\<close>

theorem hash_length_check_accepts_65_witness:
  "hex_DecodedLen 65 = len_xdr_Hash
   \<and> fst (GetTransaction sample_helpers empty_reader (store_with [100])
         \<lparr>Hash = sample_hash @ ''a'', Format = []\<rparr>) =
       (zero_GetTransactionResponse,
        Some \<lparr>Code = InvalidParams, Message = ''incorrect hash: encoding/hex: odd length hex string''\<rparr>)
   \<and> snd (GetTransaction sample_helpers empty_reader (store_with [100])
         \<lparr>Hash = sample_hash @ ''a'', Format = []\<rparr>) = (empty_reader, store_with [100])"
proof -
  let ?req = "\<lparr>Hash = sample_hash @ ''a'', Format = []\<rparr>"
  have v: "IsValidFormat sample_helpers (Format ?req) = None"
    by (simp add: IsValidFormat_def)
  have l: "length (Hash ?req) = 65"
    by (simp add: sample_hash_def)
  have e: "hex_Decode (Hash ?req) = (replicate 32 0xaa, Some ErrLength)"
    by code_simp
  from hash_length_check_accepts_65 [of 65 sample_helpers ?req empty_reader "store_with [100]"] v l
  obtain err where g: "GetTransaction sample_helpers empty_reader (store_with [100]) ?req =
           ((zero_GetTransactionResponse,
             Some \<lparr>Code = InvalidParams, Message = ''incorrect hash: '' @ hex_error_Error err\<rparr>),
            empty_reader, store_with [100])"
    and len: "hex_DecodedLen 65 = len_xdr_Hash"
    by auto
  have "parse_request sample_helpers ?req =
      Inl \<lparr>Code = InvalidParams, Message = ''incorrect hash: '' @ hex_error_Error ErrLength\<rparr>"
    using v l e by (simp add: parse_request_def hex_DecodedLen_def len_xdr_Hash_def)
  with g have "hex_error_Error err = hex_error_Error ErrLength"
    by (simp add: GetTransaction_unparsed)
  with g len show ?thesis by simp
qed


section \<open>The response of getTransaction\<close>

lemma GetLedgerRange_empty:
  assumes "table db = []" and "engine_error db = None"
  shows "fst (GetLedgerRange db) = Inl ErrEmptyDB"
  using assms by (simp add: GetLedgerRange_def Select_def Let_def)

text \<open>
  Claim C9. On a store without rows (the engine answering), \<open>GetLedgerRange\<close> fails with
  \<open>ErrEmptyDB\<close>, whatever the cache holds. A \<open>getTransaction\<close> call with a valid format
  and a well-formed hash then fails with the code of internal errors, -32603, and the
  message \<open>unable to get ledger range: \<close> followed by the text of \<open>ErrEmptyDB\<close>; the
  response beside the error is the zero value, not a \<open>NOT_FOUND\<close> response, and the
  transaction reader is not consulted.
\<close>

theorem empty_store_is_internal_error:
  assumes "table db = []" and "engine_error db = None"
  shows "fst (GetLedgerRange db) = Inl ErrEmptyDB
       \<and> (IsValidFormat d (Format request) = None \<and> decodes_to_32_bytes (Hash request) \<longrightarrow>
            fst (GetTransaction d reader db request) =
              (zero_GetTransactionResponse,
               Some \<lparr>Code = - 32603,
                     Message = ''unable to get ledger range: '' @ ErrEmptyDB_text (texts d)\<rparr>)
            \<and> Status (fst (fst (GetTransaction d reader db request))) \<noteq> TransactionStatusNotFound
            \<and> fst (snd (GetTransaction d reader db request)) = reader)"
proof -
  note r = GetLedgerRange_empty [OF assms]
  have "fst (GetTransaction d reader db request) =
              (zero_GetTransactionResponse,
               Some \<lparr>Code = - 32603,
                     Message = ''unable to get ledger range: '' @ ErrEmptyDB_text (texts d)\<rparr>)
            \<and> Status (fst (fst (GetTransaction d reader db request))) \<noteq> TransactionStatusNotFound
            \<and> fst (snd (GetTransaction d reader db request)) = reader"
    if "IsValidFormat d (Format request) = None" "decodes_to_32_bytes (Hash request)"
  proof -
    obtain db' where "GetLedgerRange db = (Inl ErrEmptyDB, db')"
      using r by (cases "GetLedgerRange db") auto
    then show ?thesis
      using parse_request_ok(1) [OF that]
      by (simp add: GetTransaction_parsed InternalError_def zero_GetTransactionResponse_def
          TransactionStatusNotFound_def)
  qed
  with r show ?thesis by blast
qed

text \<open>The theorem at the empty store and a well-formed hash.\<close>

theorem empty_store_is_internal_error_witness:
  "fst (GetLedgerRange (store_with [])) = Inl ErrEmptyDB
   \<and> fst (GetTransaction sample_helpers empty_reader (store_with []) \<lparr>Hash = sample_hash, Format = []\<rparr>) =
       (zero_GetTransactionResponse,
        Some \<lparr>Code = - 32603, Message = ''unable to get ledger range: DB is empty''\<rparr>)"
proof -
  let ?req = "\<lparr>Hash = sample_hash, Format = []\<rparr>"
  have t: "table (store_with []) = []" "engine_error (store_with []) = None"
    by (simp_all add: store_with_def)
  have v: "IsValidFormat sample_helpers (Format ?req) = None"
    by (simp add: IsValidFormat_def)
  have h: "decodes_to_32_bytes (Hash ?req)"
    by (simp add: decodes_to_32_bytes_def sample_hash_def is_hex_digit_def)
  show ?thesis
    using empty_store_is_internal_error [OF t, of sample_helpers ?req empty_reader] v h
    by (simp add: sample_helpers_def)
qed

lemma respond_range:
  assumes "respond d request storeRange looked_up = (response, err)"
  shows "LatestLedger response = Sequence (LastLedger storeRange)
       \<and> LatestLedgerCloseTime response = CloseTime (LastLedger storeRange)
       \<and> OldestLedger response = Sequence (FirstLedger storeRange)
       \<and> OldestLedgerCloseTime response = CloseTime (FirstLedger storeRange)"
  using assms
  by (auto simp: respond_def set_status_def Let_def zero_GetTransactionResponse_def
      split: sum.splits if_splits prod.splits)

text \<open>
  Claim C3. Every response that \<open>GetTransaction\<close> returns without an error, whatever its
  status, carries the range that \<open>GetLedgerRange\<close> returned in this call, on the store the
  call was given: \<open>latestLedger\<close> and \<open>latestLedgerCloseTime\<close> are the last ledger of the
  range, \<open>oldestLedger\<close> and \<open>oldestLedgerCloseTime\<close> the first. The store after the call
  is the store after that one read of the range.
\<close>

theorem response_carries_ledger_range:
  assumes "GetTransaction d reader db request = ((response, None), reader', db')"
  shows "\<exists>storeRange. GetLedgerRange db = (Inr storeRange, db')
       \<and> LatestLedger response = Sequence (LastLedger storeRange)
       \<and> LatestLedgerCloseTime response = CloseTime (LastLedger storeRange)
       \<and> OldestLedger response = Sequence (FirstLedger storeRange)
       \<and> OldestLedgerCloseTime response = CloseTime (FirstLedger storeRange)"
proof (cases "parse_request d request")
  case (Inl err)
  with assms show ?thesis by (simp add: GetTransaction_unparsed)
next
  case (Inr txHash)
  obtain res db1 where g: "GetLedgerRange db = (res, db1)" by (cases "GetLedgerRange db")
  show ?thesis
  proof (cases res)
    case (Inl err)
    with assms Inr g show ?thesis by (simp add: GetTransaction_parsed)
  next
    case r: (Inr storeRange)
    with assms Inr g have "respond d request storeRange (fst (reader_GetTransaction txHash reader)) = (response, None)"
      and "db1 = db'"
      by (simp_all add: GetTransaction_parsed)
    with respond_range [OF this(1)] g r show ?thesis by simp
  qed
qed

text \<open>
  The theorem at a hash that is not indexed, on the store of ledgers 100 and 101: the
  response is \<open>NOT_FOUND\<close> and carries the range 100 to 101.
\<close>

theorem response_carries_ledger_range_witness:
  "fst (GetTransaction sample_helpers empty_reader (store_with [100, 101]) \<lparr>Hash = sample_hash, Format = []\<rparr>) =
     (zero_GetTransactionResponse
         \<lparr>Status := ''NOT_FOUND'', LatestLedger := 101, LatestLedgerCloseTime := 1700000101,
          OldestLedger := 100, OldestLedgerCloseTime := 1700000100\<rparr>, None)
   \<and> (\<exists>storeRange.
        fst (GetLedgerRange (store_with [100, 101])) = Inr storeRange
        \<and> Sequence (LastLedger storeRange) = 101 \<and> CloseTime (LastLedger storeRange) = 1700000101
        \<and> Sequence (FirstLedger storeRange) = 100 \<and> CloseTime (FirstLedger storeRange) = 1700000100)"
proof -
  let ?call = "GetTransaction sample_helpers empty_reader (store_with [100, 101]) \<lparr>Hash = sample_hash, Format = []\<rparr>"
  let ?response = "zero_GetTransactionResponse
         \<lparr>Status := ''NOT_FOUND'', LatestLedger := 101, LatestLedgerCloseTime := 1700000101,
          OldestLedger := 100, OldestLedgerCloseTime := 1700000100\<rparr>"
  have f: "fst ?call = (?response, None)"
    by code_simp
  then have g: "?call = ((?response, None), fst (snd ?call), snd (snd ?call))"
    by (simp add: prod_eq_iff)
  from response_carries_ledger_range [OF g] f show ?thesis
    by (auto simp: zero_GetTransactionResponse_def)
qed

end
